theory Spec2Isabelle
  imports Main "HOL-Library.Word"
begin

section \<open>Machine types of \<^verbatim>\<open>mmap_allocator.h\<close>\<close>

text \<open>
  The header is written for a POSIX system with 64-bit \<^verbatim>\<open>size_t\<close>, \<^verbatim>\<open>off_t\<close> and
  pointers. \<^verbatim>\<open>size_t\<close> arithmetic wraps modulo \<open>2 ^ 64\<close>; \<^verbatim>\<open>off_t\<close> is the same
  bit pattern read as two's complement (\<open>sint\<close>); a \<^verbatim>\<open>void*\<close> is its address.
\<close>

type_synonym size_t = "64 word"
type_synonym off_t = "64 word"
type_synonym addr = "64 word"

definition NULL :: addr where
  "NULL = 0"

text \<open>\<^verbatim>\<open>MAP_FAILED\<close> is \<^verbatim>\<open>(void *) -1\<close>.\<close>

definition MAP_FAILED :: addr where
  "MAP_FAILED = - 1"

text \<open>
  \<^verbatim>\<open>using SizeMap = std::map<void*, size_type>;\<close>
  \<^verbatim>\<open>using FreeMap = std::map<size_type, std::vector<void*>>;\<close>
  A \<^verbatim>\<open>std::vector\<close> is a list whose back is the last element.
\<close>

type_synonym SizeMap = "addr \<rightharpoonup> size_t"
type_synonym FreeMap = "size_t \<rightharpoonup> addr list"

text \<open>
  \<^verbatim>\<open>std::map::operator[]\<close> inserts a value-initialised element when the key is absent
  and returns a reference to the element: \<open>0\<close> in a \<open>SizeMap\<close>, the empty vector in a
  \<open>FreeMap\<close>. \<open>size_at\<close> and \<open>bucket\<close> are the value read; the insertion is written
  out where the operator is used.
\<close>

definition size_at :: "SizeMap \<Rightarrow> addr \<Rightarrow> size_t" where
  "size_at sm p = (case sm p of None \<Rightarrow> 0 | Some s \<Rightarrow> s)"

definition bucket :: "FreeMap \<Rightarrow> size_t \<Rightarrow> addr list" where
  "bucket fm s = (case fm s of None \<Rightarrow> [] | Some v \<Rightarrow> v)"

section \<open>The operating system interface\<close>

text \<open>
  The system calls the header makes (\<^verbatim>\<open>open\<close>, \<^verbatim>\<open>lseek\<close>, \<^verbatim>\<open>write\<close>, \<^verbatim>\<open>mmap\<close>) are
  not code of the repository. They are modelled after POSIX on a file system that
  records the length of every file, and a descriptor table that records, for every
  open descriptor, its file and its offset. File contents are not modelled.
  Whether a call succeeds also depends on the environment (permissions, disk space,
  address space); that part is a parameter of each call.
\<close>

record open_file =
  of_path :: string
  of_pos :: nat

record os_state =
  files :: "string \<rightharpoonup> nat"
  fds :: "int \<rightharpoonup> open_file"

text \<open>
  \<^verbatim>\<open>open(path, O_RDWR | O_CREAT | O_TRUNC, 0777)\<close>. \<open>kfd\<close> is the kernel's answer: the
  new descriptor, or a negative number when the file cannot be opened. On success the
  file exists and is empty, and the descriptor is open at offset 0.
\<close>

definition open_trunc :: "os_state \<Rightarrow> string \<Rightarrow> int \<Rightarrow> int \<times> os_state" where
  "open_trunc s filename kfd =
     (if kfd < 0 \<or> kfd \<in> dom (fds s) then (- 1, s)
      else (kfd, s\<lparr>files := (files s)(filename \<mapsto> 0),
                    fds := (fds s)(kfd \<mapsto> \<lparr>of_path = filename, of_pos = 0\<rparr>)\<rparr>))"

text \<open>
  \<^verbatim>\<open>lseek(fd, offset, SEEK_END)\<close>: the new offset is the file's length plus the signed
  \<open>offset\<close>. It fails with \<open>-1\<close> on a descriptor that is not open, when the new
  offset would be negative or not representable, or when the environment refuses
  (\<open>ok\<close> is false).
\<close>

definition lseek_end :: "os_state \<Rightarrow> int \<Rightarrow> off_t \<Rightarrow> bool \<Rightarrow> off_t \<times> os_state" where
  "lseek_end s d offset ok =
     (case fds s d of
        None \<Rightarrow> (- 1, s)
      | Some f \<Rightarrow>
          (case files s (of_path f) of
             None \<Rightarrow> (- 1, s)
           | Some len \<Rightarrow>
               (let np = int len + sint offset in
                if ok \<and> 0 \<le> np \<and> np < 2 ^ 63
                then (word_of_int np, s\<lparr>fds := (fds s)(d \<mapsto> f\<lparr>of_pos := nat np\<rparr>)\<rparr>)
                else (- 1, s))))"

text \<open>
  \<^verbatim>\<open>write(fd, "", 1)\<close>: one byte (the terminating NUL of the empty string literal) is
  written at the descriptor's offset; the file grows to hold it and the offset moves
  past it. The result is the number of bytes written, or \<open>-1\<close>.
\<close>

definition write_byte :: "os_state \<Rightarrow> int \<Rightarrow> bool \<Rightarrow> int \<times> os_state" where
  "write_byte s d ok =
     (case fds s d of
        None \<Rightarrow> (- 1, s)
      | Some f \<Rightarrow>
          (case files s (of_path f) of
             None \<Rightarrow> (- 1, s)
           | Some len \<Rightarrow>
               (if ok
                then (1, s\<lparr>files := (files s)(of_path f \<mapsto> max len (of_pos f + 1)),
                           fds := (fds s)(d \<mapsto> f\<lparr>of_pos := of_pos f + 1\<rparr>)\<rparr>)
                else (- 1, s))))"

text \<open>
  \<^verbatim>\<open>mmap(0, length, PROT_READ | PROT_WRITE, MAP_SHARED, fd, offset)\<close>. The kernel
  chooses the address (\<open>kaddr\<close>, \<open>None\<close> when it has none to give). The call fails with
  \<^verbatim>\<open>MAP_FAILED\<close> when \<open>length\<close> is zero, when the descriptor is not open, and when
  \<open>offset\<close> is negative or not a multiple of the page size.
\<close>

definition mmap_shared ::
  "int \<Rightarrow> os_state \<Rightarrow> size_t \<Rightarrow> int \<Rightarrow> off_t \<Rightarrow> addr option \<Rightarrow> addr" where
  "mmap_shared kPageSize s len d offset kaddr =
     (if len = 0 \<or> d \<notin> dom (fds s) \<or> sint offset < 0 \<or> sint offset mod kPageSize \<noteq> 0
      then MAP_FAILED
      else (case kaddr of None \<Rightarrow> MAP_FAILED | Some a \<Rightarrow> a))"

text \<open>What the environment answers to the four system calls of one \<^verbatim>\<open>allocate\<close>.\<close>

record sys_env =
  lseek1_ok :: bool
  lseek2_ok :: bool
  write_ok :: bool
  mmap_addr :: "addr option"

section \<open>The allocator's state\<close>

text \<open>
  \<^verbatim>\<open>class Allocator\<close> has three fields: \<^verbatim>\<open>int fd_\<close>,
  \<^verbatim>\<open>std::shared_ptr<SizeMap> sizes_\<close> and \<^verbatim>\<open>std::shared_ptr<FreeMap> free_blocks_\<close>.
  A shared pointer is a reference into a store of maps, each with its use count, so
  that two handles holding the same reference see one map. The element type \<open>T\<close> of
  \<^verbatim>\<open>Allocator<T>\<close> takes no part in the fields; \<^verbatim>\<open>sizeof(T)\<close> is a parameter of
  \<^verbatim>\<open>allocate\<close>. The fields are \<open>fd\<close>, \<open>sizes\<close> and \<open>free_blocks\<close> here: a name
  cannot end with an underscore.
\<close>

record Allocator =
  fd :: int
  sizes :: nat
  free_blocks :: nat

text \<open>
  The process: the operating system's state, the store of \<open>SizeMap\<close> and \<open>FreeMap\<close>
  objects with their use counts, the \<^verbatim>\<open>Allocator\<close> objects created with \<^verbatim>\<open>new\<close>, and
  the global \<^verbatim>\<open>void* default_allocator\<close> (\<open>None\<close> is the null pointer, the value of a
  zero-initialised global).
\<close>

record process =
  os :: os_state
  size_maps :: "nat \<rightharpoonup> SizeMap"
  size_uses :: "nat \<Rightarrow> nat"
  free_maps :: "nat \<rightharpoonup> FreeMap"
  free_uses :: "nat \<Rightarrow> nat"
  allocators :: "nat \<rightharpoonup> Allocator"
  default_allocator :: "nat option"
  next_ref :: nat

section \<open>Construction, copies and destruction\<close>

text \<open>
  \<^verbatim>\<open>static Allocator* New(std::string filename)\<close>: opens the file, and on success
  creates a \<open>SizeMap\<close>, a \<open>FreeMap\<close> (each owned by one shared pointer) and the
  \<^verbatim>\<open>Allocator\<close> object. The result is the pointer to the object, null when
  \<^verbatim>\<open>open\<close> returned \<open>-1\<close>.
\<close>

definition New :: "string \<Rightarrow> int \<Rightarrow> process \<Rightarrow> nat option \<times> process" where
  "New filename kfd st =
     (let (r, os') = open_trunc (os st) filename kfd in
      if r = - 1 then (None, st\<lparr>os := os'\<rparr>)
      else
        (let sm = next_ref st; fm = next_ref st + 1; obj = next_ref st + 2 in
         (Some obj,
          st\<lparr>os := os',
             size_maps := (size_maps st)(sm \<mapsto> Map.empty),
             size_uses := (size_uses st)(sm := 1),
             free_maps := (free_maps st)(fm \<mapsto> Map.empty),
             free_uses := (free_uses st)(fm := 1),
             allocators := (allocators st)(obj \<mapsto> \<lparr>fd = r, sizes = sm, free_blocks = fm\<rparr>),
             next_ref := next_ref st + 3\<rparr>)))"

text \<open>
  \<^verbatim>\<open>template <class U> Allocator(const Allocator<U>& other)\<close>, and the implicit copy
  constructor for \<open>U = T\<close>: the three fields are copied; copying a shared pointer
  adds one to the use count of the object it refers to.
\<close>

definition Allocator_copy :: "Allocator \<Rightarrow> process \<Rightarrow> Allocator \<times> process" where
  "Allocator_copy other st =
     (\<lparr>fd = fd other, sizes = sizes other, free_blocks = free_blocks other\<rparr>,
      st\<lparr>size_uses := (size_uses st)(sizes other := size_uses st (sizes other) + 1),
         free_uses := (free_uses st)(free_blocks other := free_uses st (free_blocks other) + 1)\<rparr>)"

text \<open>
  \<^verbatim>\<open>Allocator()\<close>: the fields are read through \<^verbatim>\<open>default_allocator\<close>. Reading through
  a null pointer or a pointer to a deleted object is undefined behaviour: \<open>None\<close>.
\<close>

definition Allocator_default :: "process \<Rightarrow> (Allocator \<times> process) option" where
  "Allocator_default st =
     (case default_allocator st of
        None \<Rightarrow> None
      | Some d \<Rightarrow>
          (case allocators st d of
             None \<Rightarrow> None
           | Some other \<Rightarrow> Some (Allocator_copy other st)))"

text \<open>
  The class declares no destructor. The implicit one destroys the two shared
  pointers, each giving up one use and deleting its map with the last use; the
  \<^verbatim>\<open>int fd_\<close> has no destructor.
\<close>

definition release_sizes :: "nat \<Rightarrow> process \<Rightarrow> process" where
  "release_sizes r st =
     (if size_uses st r \<le> 1
      then st\<lparr>size_maps := (size_maps st)(r := None), size_uses := (size_uses st)(r := 0)\<rparr>
      else st\<lparr>size_uses := (size_uses st)(r := size_uses st r - 1)\<rparr>)"

definition release_free :: "nat \<Rightarrow> process \<Rightarrow> process" where
  "release_free r st =
     (if free_uses st r \<le> 1
      then st\<lparr>free_maps := (free_maps st)(r := None), free_uses := (free_uses st)(r := 0)\<rparr>
      else st\<lparr>free_uses := (free_uses st)(r := free_uses st r - 1)\<rparr>)"

definition Allocator_destroy :: "Allocator \<Rightarrow> process \<Rightarrow> process" where
  "Allocator_destroy a st = release_sizes (sizes a) (release_free (free_blocks a) st)"

text \<open>
  \<^verbatim>\<open>void SetDefault(std::string filename)\<close> stores the result of \<^verbatim>\<open>New\<close> in the global.
\<close>

definition SetDefault :: "string \<Rightarrow> int \<Rightarrow> process \<Rightarrow> process" where
  "SetDefault filename kfd st =
     (let (p, st') = New filename kfd st in st'\<lparr>default_allocator := p\<rparr>)"

text \<open>
  \<^verbatim>\<open>void FreeDefault()\<close> is \<^verbatim>\<open>delete static_cast<Allocator<char>*>(default_allocator)\<close>:
  nothing for a null pointer; otherwise the object is destroyed and its storage freed.
  The global keeps its value. Deleting an object twice is undefined behaviour: \<open>None\<close>.
\<close>

definition FreeDefault :: "process \<Rightarrow> process option" where
  "FreeDefault st =
     (case default_allocator st of
        None \<Rightarrow> Some st
      | Some d \<Rightarrow>
          (case allocators st d of
             None \<Rightarrow> None
           | Some a \<Rightarrow> Some (Allocator_destroy a (st\<lparr>allocators := (allocators st)(d := None)\<rparr>))))"

section \<open>allocate and deallocate\<close>

text \<open>
  Lines 67 to 70 of \<^verbatim>\<open>allocate\<close>: the byte count \<^verbatim>\<open>n * sizeof(T)\<close>, rounded up to a
  multiple of the page size. \<^verbatim>\<open>const int kPageSize = sysconf(_SC_PAGE_SIZE)\<close> is a
  parameter; in \<^verbatim>\<open>to_alloc % kPageSize\<close> the \<^verbatim>\<open>int\<close> is converted to \<^verbatim>\<open>size_t\<close>.
\<close>

definition to_alloc :: "int \<Rightarrow> size_t \<Rightarrow> size_t \<Rightarrow> size_t" where
  "to_alloc kPageSize sizeof_T n =
     (let t = n * sizeof_T in
      if t mod word_of_int kPageSize \<noteq> 0
      then (t div word_of_int kPageSize + 1) * word_of_int kPageSize
      else t)"

text \<open>
  Lines 79 to 91: the free list had no block. \<open>fm\<close> is the free map after
  \<^verbatim>\<open>(*free_blocks_)[to_alloc]\<close> has inserted the empty bucket. The result of the first
  \<^verbatim>\<open>lseek\<close> is not checked; the second \<^verbatim>\<open>lseek\<close> and the \<^verbatim>\<open>write\<close> return null on
  failure; the result of \<^verbatim>\<open>mmap\<close> is stored in the size map and returned as it is.
\<close>

definition grow ::
  "int \<Rightarrow> Allocator \<Rightarrow> size_t \<Rightarrow> sys_env \<Rightarrow> process \<Rightarrow> (addr \<times> process) option" where
  "grow kPageSize a sz env st =
     (let (previous_end, os1) = lseek_end (os st) (fd a) 0 (lseek1_ok env);
          (r, os2) = lseek_end os1 (fd a) (sz - 1) (lseek2_ok env)
      in if r = - 1 then Some (NULL, st\<lparr>os := os2\<rparr>)
         else
           (let (w, os3) = write_byte os2 (fd a) (write_ok env)
            in if w \<noteq> 1 then Some (NULL, st\<lparr>os := os3\<rparr>)
               else
                 (let p = mmap_shared kPageSize os3 sz (fd a) previous_end (mmap_addr env)
                  in case size_maps st (sizes a) of
                       None \<Rightarrow> None
                     | Some sm \<Rightarrow>
                         Some (p, st\<lparr>os := os3,
                                     size_maps := (size_maps st)(sizes a \<mapsto> sm(p \<mapsto> sz))\<rparr>))))"

text \<open>
  \<^verbatim>\<open>T* allocate(size_t n)\<close>. A remainder by a zero page size, and a dereference of a
  shared pointer whose map is gone, are undefined behaviour: \<open>None\<close>.
\<close>

definition allocate ::
  "int \<Rightarrow> size_t \<Rightarrow> Allocator \<Rightarrow> size_t \<Rightarrow> sys_env \<Rightarrow> process \<Rightarrow> (addr \<times> process) option" where
  "allocate kPageSize sizeof_T a n env st =
     (if (word_of_int kPageSize :: size_t) = 0 then None
      else
        (case free_maps st (free_blocks a) of
           None \<Rightarrow> None
         | Some fm \<Rightarrow>
             (let sz = to_alloc kPageSize sizeof_T n;
                  vec = bucket fm sz
              in if vec \<noteq> []
                 then Some (last vec,
                            st\<lparr>free_maps := (free_maps st)(free_blocks a \<mapsto> fm(sz \<mapsto> butlast vec))\<rparr>)
                 else grow kPageSize a sz env
                        (st\<lparr>free_maps := (free_maps st)(free_blocks a \<mapsto> fm(sz \<mapsto> []))\<rparr>))))"

text \<open>
  \<^verbatim>\<open>void deallocate(T* p, size_t n)\<close>: \<^verbatim>\<open>(*sizes_)[p]\<close> reads the size, inserting \<open>0\<close>
  for an address that has none; the address is pushed on the back of the bucket of
  that size. \<open>n\<close> is not used.
\<close>

definition deallocate :: "Allocator \<Rightarrow> addr \<Rightarrow> size_t \<Rightarrow> process \<Rightarrow> process option" where
  "deallocate a p n st =
     (case size_maps st (sizes a) of
        None \<Rightarrow> None
      | Some sm \<Rightarrow>
          (case free_maps st (free_blocks a) of
             None \<Rightarrow> None
           | Some fm \<Rightarrow>
               (let to_free = size_at sm p in
                Some (st\<lparr>size_maps := (size_maps st)(sizes a \<mapsto> sm(p \<mapsto> to_free)),
                         free_maps := (free_maps st)(free_blocks a \<mapsto>
                                        fm(to_free \<mapsto> bucket fm to_free @ [p]))\<rparr>))))"

section \<open>Calls in sequence\<close>

text \<open>
  A client of one arena makes calls of \<^verbatim>\<open>allocate\<close> and \<^verbatim>\<open>deallocate\<close> through handles
  that share the arena's maps; each \<^verbatim>\<open>allocate\<close> comes with the element size of the
  handle it goes through and with the environment's answers to its system calls.
\<close>

datatype call = Allocate size_t size_t sys_env | Deallocate addr size_t

text \<open>
  One call. Besides the process, \<open>step\<close> keeps the set of addresses that are live:
  returned by a call of \<^verbatim>\<open>allocate\<close> that did not return null, and not passed to
  \<^verbatim>\<open>deallocate\<close> since.
\<close>

fun step :: "int \<Rightarrow> Allocator \<Rightarrow> call \<Rightarrow> process \<times> addr set \<Rightarrow> (process \<times> addr set) option" where
  "step kPageSize a (Allocate sizeof_T n env) (st, live) =
     (case allocate kPageSize sizeof_T a n env st of
        None \<Rightarrow> None
      | Some (p, st') \<Rightarrow> Some (st', if p = NULL then live else insert p live))"
| "step kPageSize a (Deallocate p n) (st, live) =
     (case deallocate a p n st of
        None \<Rightarrow> None
      | Some st' \<Rightarrow> Some (st', live - {p}))"

fun run :: "int \<Rightarrow> Allocator \<Rightarrow> call list \<Rightarrow> process \<times> addr set \<Rightarrow> (process \<times> addr set) option" where
  "run kPageSize a [] s = Some s"
| "run kPageSize a (c # cs) s =
     (case step kPageSize a c s of
        None \<Rightarrow> None
      | Some s' \<Rightarrow> run kPageSize a cs s')"

text \<open>The maps a handle refers to (empty when the reference is dangling).\<close>

definition registry :: "Allocator \<Rightarrow> process \<Rightarrow> SizeMap" where
  "registry a st = (case size_maps st (sizes a) of None \<Rightarrow> Map.empty | Some sm \<Rightarrow> sm)"

definition free_list :: "Allocator \<Rightarrow> process \<Rightarrow> FreeMap" where
  "free_list a st = (case free_maps st (free_blocks a) of None \<Rightarrow> Map.empty | Some fm \<Rightarrow> fm)"

text \<open>
  \<^verbatim>\<open>mmap\<close> without \<^verbatim>\<open>MAP_FIXED\<close> places a new mapping where no mapping is, and no
  mapping of the arena is ever removed; its address is never \<^verbatim>\<open>MAP_FAILED\<close>. In a
  well-behaved environment the address the kernel offers is therefore new to the size
  map. \<open>fresh_run\<close> says so of every call of a sequence.
\<close>

fun fresh_call :: "Allocator \<Rightarrow> call \<Rightarrow> process \<Rightarrow> bool" where
  "fresh_call a (Allocate sizeof_T n env) st =
     (case mmap_addr env of
        None \<Rightarrow> True
      | Some q \<Rightarrow> q \<noteq> MAP_FAILED \<and> registry a st q = None)"
| "fresh_call a (Deallocate p n) st = True"

fun fresh_run :: "int \<Rightarrow> Allocator \<Rightarrow> call list \<Rightarrow> process \<times> addr set \<Rightarrow> bool" where
  "fresh_run kPageSize a [] s = True"
| "fresh_run kPageSize a (c # cs) s =
     (fresh_call a c (fst s) \<and>
      (case step kPageSize a c s of
         None \<Rightarrow> True
       | Some s' \<Rightarrow> fresh_run kPageSize a cs s'))"

text \<open>
  Calls that leave the bucket of size \<open>S\<close> alone: an \<^verbatim>\<open>allocate\<close> of another rounded
  size, and a \<^verbatim>\<open>deallocate\<close> of an address whose size in the size map is not \<open>S\<close>.
\<close>

fun quiet_call :: "int \<Rightarrow> Allocator \<Rightarrow> size_t \<Rightarrow> call \<Rightarrow> process \<Rightarrow> bool" where
  "quiet_call kPageSize a S (Allocate sizeof_T n env) st = (to_alloc kPageSize sizeof_T n \<noteq> S)"
| "quiet_call kPageSize a S (Deallocate p n) st = (size_at (registry a st) p \<noteq> S)"

fun quiet_run :: "int \<Rightarrow> Allocator \<Rightarrow> size_t \<Rightarrow> call list \<Rightarrow> process \<times> addr set \<Rightarrow> bool" where
  "quiet_run kPageSize a S [] s = True"
| "quiet_run kPageSize a S (c # cs) s =
     (quiet_call kPageSize a S c (fst s) \<and>
      (case step kPageSize a c s of
         None \<Rightarrow> True
       | Some s' \<Rightarrow> quiet_run kPageSize a S cs s'))"

text \<open>
  A handle obtained from the handle \<open>h\<close> in the process \<open>st\<close>: by the copy or
  converting constructor, or by the default constructor while \<^verbatim>\<open>default_allocator\<close>
  points to \<open>h\<close>. The result is the new handle and the process after the constructor.
\<close>

definition obtained_from :: "Allocator \<Rightarrow> process \<Rightarrow> Allocator \<times> process \<Rightarrow> bool" where
  "obtained_from h st r =
     (r = Allocator_copy h st \<or>
      (case default_allocator st of
         None \<Rightarrow> False
       | Some d \<Rightarrow> allocators st d = Some h \<and> Allocator_default st = Some r))"

text \<open>The smallest multiple of \<open>K\<close> that is at least \<open>b\<close>, on the natural numbers.\<close>

definition page_ceiling :: "nat \<Rightarrow> nat \<Rightarrow> nat" where
  "page_ceiling K b = (if b mod K \<noteq> 0 then (b div K + 1) * K else b)"

text \<open>
  A process that has opened no file and created no object, and the answers of an
  environment in which every system call succeeds and \<^verbatim>\<open>mmap\<close> places the mapping at
  \<open>q\<close>.
\<close>

definition init_process :: process where
  "init_process =
     \<lparr>os = \<lparr>files = Map.empty, fds = Map.empty\<rparr>,
      size_maps = Map.empty, size_uses = (\<lambda>_. 0),
      free_maps = Map.empty, free_uses = (\<lambda>_. 0),
      allocators = Map.empty, default_allocator = None, next_ref = 0\<rparr>"

definition env_ok :: "addr \<Rightarrow> sys_env" where
  "env_ok q = \<lparr>lseek1_ok = True, lseek2_ok = True, write_ok = True, mmap_addr = Some q\<rparr>"

text \<open>
  The arena of the tests: \<^verbatim>\<open>New("test.db")\<close> in the initial process, the kernel
  answering with descriptor 3, and the handle it creates.
\<close>

definition test_process :: process where
  "test_process = snd (New ''test.db'' 3 init_process)"

definition test_handle :: Allocator where
  "test_handle = \<lparr>fd = 3, sizes = 0, free_blocks = 1\<rparr>"

text \<open>A handle is valid in a process when both maps it refers to exist.\<close>

definition valid :: "Allocator \<Rightarrow> process \<Rightarrow> bool" where
  "valid a st = (size_maps st (sizes a) \<noteq> None \<and> free_maps st (free_blocks a) \<noteq> None)"



definition consistent :: "Allocator \<Rightarrow> process \<Rightarrow> bool" where
  "consistent a st =
     (\<forall>S q. q \<in> set (bucket (free_list a st) S) \<longrightarrow> q \<noteq> MAP_FAILED
        \<longrightarrow> registry a st q = Some S)"

text \<open>
  Rounds of \<^verbatim>\<open>deallocate(p, n)\<close> followed by \<^verbatim>\<open>allocate(m)\<close> through a handle of element
  size \<open>sizeof_U\<close>; the result lists the addresses the calls of \<^verbatim>\<open>allocate\<close> returned.
\<close>

fun rounds ::
  "int \<Rightarrow> Allocator \<Rightarrow> addr \<Rightarrow> (size_t \<times> size_t \<times> size_t \<times> sys_env) list \<Rightarrow> process
     \<Rightarrow> (addr list \<times> process) option" where
  "rounds kPageSize a p [] st = Some ([], st)"
| "rounds kPageSize a p ((n, sizeof_U, m, env) # rs) st =
     (case deallocate a p n st of
        None \<Rightarrow> None
      | Some st1 \<Rightarrow>
          (case allocate kPageSize sizeof_U a m env st1 of
             None \<Rightarrow> None
           | Some (q, st2) \<Rightarrow>
               (case rounds kPageSize a p rs st2 of
                  None \<Rightarrow> None
                | Some (qs, st3) \<Rightarrow> Some (q # qs, st3))))"

section \<open>Page rounding\<close>

lemma page_ceiling_dvd: "K dvd page_ceiling K b"
  by (auto simp: page_ceiling_def)

lemma page_ceiling_ge:
  assumes "0 < K"
  shows "b \<le> page_ceiling K b"
proof -
  have e: "b div K * K + b mod K = b" by simp
  have "b mod K < K" using assms by simp
  then have "b \<le> b div K * K + K" using e by linarith
  then have "b \<le> (b div K + 1) * K" by simp
  then show ?thesis by (simp add: page_ceiling_def)
qed

lemma page_ceiling_least:
  assumes "0 < K" "K dvd m" "b \<le> m"
  shows "page_ceiling K b \<le> m"
proof (cases "b mod K = 0")
  case True
  then show ?thesis using assms by (simp add: page_ceiling_def)
next
  case False
  obtain q where m: "m = K * q" using assms(2) by (auto simp: dvd_def)
  have "b div K < q"
  proof (rule ccontr)
    assume "\<not> b div K < q"
    then have "q \<le> b div K" by simp
    then have "K * q \<le> K * (b div K)" by simp
    also have "\<dots> \<le> b" by simp
    finally have "b = m" using assms(3) m by simp
    then show False using False m by simp
  qed
  then have "b div K + 1 \<le> q" by simp
  then have "(b div K + 1) * K \<le> q * K" by (rule mult_le_mono1)
  then show ?thesis using False m by (simp add: page_ceiling_def mult.commute)
qed

text \<open>The page size as \<^verbatim>\<open>size_t\<close>: the conversion keeps a positive value that fits.\<close>

lemma unat_pagesize:
  assumes "0 < k" "nat k < 2 ^ 64"
  shows "unat (word_of_int k :: size_t) = nat k"
proof -
  have "k < int (2 ^ 64)" using assms by (simp only: nat_less_iff[symmetric] less_imp_le)
  then have "k < 2 ^ 64" by simp
  then have "k mod 2 ^ 64 = k" using assms(1) by simp
  then have "uint (word_of_int k :: size_t) = k"
    by (simp only: uint_word_of_int len_of_numeral_defs) simp
  then show ?thesis by (simp only: unat_eq_nat_uint)
qed

text \<open>
  Where the smallest multiple fits in \<^verbatim>\<open>size_t\<close>, no step of the computation wraps and
  \<open>to_alloc\<close> is that multiple.
\<close>

lemma unat_to_alloc:
  assumes k: "0 < kPageSize"
    and fit: "page_ceiling (nat kPageSize) (unat n * unat sizeof_T) < 2 ^ 64"
  shows "unat (to_alloc kPageSize sizeof_T n) = page_ceiling (nat kPageSize) (unat n * unat sizeof_T)"
proof -
  define K where "K = nat kPageSize"
  define b where "b = unat n * unat sizeof_T"
  define ps where "ps = (word_of_int kPageSize :: size_t)"
  define t where "t = n * sizeof_T"
  have K: "0 < K" using k by (simp add: K_def)
  have bM: "b \<le> page_ceiling K b" using K by (rule page_ceiling_ge)
  have fit': "page_ceiling K b < 2 ^ 64" using fit by (simp only: K_def b_def)
  have b64: "b < 2 ^ 64" using bM fit' by linarith
  have t: "unat t = b"
    unfolding t_def b_def using b64[unfolded b_def] by (simp add: unat_word_ariths(2))
  have ta: "to_alloc kPageSize sizeof_T n = (if t mod ps \<noteq> 0 then (t div ps + 1) * ps else t)"
    by (simp only: to_alloc_def Let_def t_def ps_def)
  show ?thesis
  proof (cases "b = 0")
    case True
    then have "t = 0" using t by (simp add: unat_eq_0)
    then have "to_alloc kPageSize sizeof_T n = 0" by (simp add: ta)
    then show ?thesis using True
      by (simp add: page_ceiling_def b_def[symmetric] K_def[symmetric])
  next
    case False
    have "K \<le> page_ceiling K b"
      using False K page_ceiling_dvd[of K b] bM by (auto intro!: dvd_imp_le)
    then have Kfit: "K < 2 ^ 64" using fit' by linarith
    have ps: "unat ps = K"
      unfolding ps_def K_def using k Kfit[unfolded K_def] by (rule unat_pagesize)
    have md: "unat (t mod ps) = b mod K" by (simp only: unat_mod t ps)
    show ?thesis
    proof (cases "b mod K = 0")
      case True
      then have "t mod ps = 0" using md by (simp add: unat_eq_0)
      then have "to_alloc kPageSize sizeof_T n = t" by (simp add: ta)
      then show ?thesis using True t
        by (simp add: page_ceiling_def b_def[symmetric] K_def[symmetric])
    next
      case nz: False
      have m: "t mod ps \<noteq> 0"
      proof
        assume "t mod ps = 0"
        then have "unat (t mod ps) = 0" by (simp only: unat_0)
        then show False using nz md by simp
      qed
      have pc: "page_ceiling K b = (b div K + 1) * K" using nz by (simp add: page_ceiling_def)
      have "b div K + 1 \<le> (b div K + 1) * K" using K by (cases K) simp_all
      then have q: "b div K + 1 < 2 ^ 64" using fit' pc by linarith
      have dv: "unat (t div ps) = b div K" by (simp only: unat_div t ps)
      have "unat (t div ps + 1) = (unat (t div ps) + unat (1 :: size_t)) mod 2 ^ 64"
        by (simp only: unat_word_ariths(1) len_of_numeral_defs) simp
      then have d1: "unat (t div ps + 1) = b div K + 1"
        using q dv by simp
      have "unat ((t div ps + 1) * ps) = (unat (t div ps + 1) * unat ps) mod 2 ^ 64"
        by (simp only: unat_word_ariths(2) len_of_numeral_defs) simp
      then have "unat ((t div ps + 1) * ps) = (b div K + 1) * K"
        using fit' pc d1 ps by simp
      moreover have "to_alloc kPageSize sizeof_T n = (t div ps + 1) * ps" using m by (simp add: ta)
      ultimately show ?thesis using pc
        by (simp add: b_def[symmetric] K_def[symmetric])
    qed
  qed
qed

text \<open>
  C1. Page rounding. The claim is that for every request the block size is the
  smallest multiple of the page size that is at least \<^verbatim>\<open>count * sizeof(T)\<close>. For a
  positive page size this holds whenever some multiple of the page size that is at
  least \<^verbatim>\<open>count * sizeof(T)\<close> fits in \<^verbatim>\<open>size_t\<close>: the block size \<open>to_alloc\<close> is then a
  multiple of the page size, at least the byte count, at most every other such
  multiple, and equal to the byte count when that is a multiple already.
\<close>

theorem page_rounding:
  assumes "0 < kPageSize"
    and "nat kPageSize dvd m0" and "unat n * unat sizeof_T \<le> m0" and "m0 < 2 ^ 64"
  shows "nat kPageSize dvd unat (to_alloc kPageSize sizeof_T n)
       \<and> unat n * unat sizeof_T \<le> unat (to_alloc kPageSize sizeof_T n)
       \<and> (\<forall>m. nat kPageSize dvd m \<and> unat n * unat sizeof_T \<le> m
              \<longrightarrow> unat (to_alloc kPageSize sizeof_T n) \<le> m)
       \<and> (nat kPageSize dvd unat n * unat sizeof_T
              \<longrightarrow> unat (to_alloc kPageSize sizeof_T n) = unat n * unat sizeof_T)"
proof -
  have K: "0 < nat kPageSize" using assms(1) by simp
  have "page_ceiling (nat kPageSize) (unat n * unat sizeof_T) \<le> m0"
    using K assms(2,3) by (rule page_ceiling_least)
  then have fit: "page_ceiling (nat kPageSize) (unat n * unat sizeof_T) < 2 ^ 64"
    using assms(4) by linarith
  have "nat kPageSize dvd unat n * unat sizeof_T
          \<Longrightarrow> page_ceiling (nat kPageSize) (unat n * unat sizeof_T) = unat n * unat sizeof_T"
    by (auto simp: page_ceiling_def)
  then show ?thesis
    unfolding unat_to_alloc[OF assms(1) fit]
    using page_ceiling_dvd[of "nat kPageSize"] page_ceiling_ge[OF K] page_ceiling_least[OF K]
    by blast
qed

text \<open>
  Ten four-byte elements on 4096-byte pages get one page, which is no more than the
  multiple 8192; 512 eight-byte elements are a page already.
\<close>

theorem page_rounding_witness:
  "nat 4096 dvd unat (to_alloc 4096 4 10)
   \<and> unat (10 :: size_t) * unat (4 :: size_t) \<le> unat (to_alloc 4096 4 10)
   \<and> unat (to_alloc 4096 4 10) \<le> 8192
   \<and> unat (to_alloc 4096 8 512) = unat (512 :: size_t) * unat (8 :: size_t)"
  using page_rounding[of 4096 8192 10 4] page_rounding[of 4096 4096 512 8]
  by simp

text \<open>
  The claim as stated fails where the rounding wraps: \<open>2 ^ 64 - 1\<close> one-byte elements
  on 4096-byte pages get a block of size 0, which is less than the byte count.
\<close>

theorem page_rounding_counterexample:
  "to_alloc 4096 1 18446744073709551615 = 0
   \<and> \<not> unat (18446744073709551615 :: size_t) * unat (1 :: size_t)
         \<le> unat (to_alloc 4096 1 18446744073709551615)"
  by (simp add: to_alloc_def)

section \<open>What one call does\<close>


lemma mmap_shared_addr:
  "mmap_shared k s len d off kaddr = MAP_FAILED \<or> kaddr = Some (mmap_shared k s len d off kaddr)"
  by (auto simp: mmap_shared_def split: if_splits option.splits)

lemma grow_effect:
  assumes "grow k a sz env st = Some (p, st')"
  shows "free_maps st' = free_maps st"
    and "(p = NULL \<and> size_maps st' = size_maps st)
         \<or> (\<exists>sm. size_maps st (sizes a) = Some sm
                \<and> size_maps st' = (size_maps st)(sizes a \<mapsto> sm(p \<mapsto> sz))
                \<and> (p = MAP_FAILED \<or> mmap_addr env = Some p))"
  using assms mmap_shared_addr[of k _ sz "fd a" _ "mmap_addr env"]
  by (auto simp: grow_def Let_def split: prod.splits if_splits option.splits)

lemma grow_Some:
  assumes "size_maps st (sizes a) \<noteq> None"
  shows "\<exists>p st'. grow k a sz env st = Some (p, st')"
  using assms
  by (auto simp: grow_def Let_def split: prod.splits if_splits option.splits)

lemma allocate_hit:
  assumes "allocate k szT a n env st = Some (p, st')"
    and "bucket (free_list a st) (to_alloc k szT n) \<noteq> []"
  shows "p = last (bucket (free_list a st) (to_alloc k szT n))"
    and "free_list a st' = (free_list a st)(to_alloc k szT n \<mapsto> butlast (bucket (free_list a st) (to_alloc k szT n)))"
    and "registry a st' = registry a st"
    and "os st' = os st"
    and "size_maps st' = size_maps st"
  using assms
  by (auto simp: allocate_def Let_def free_list_def registry_def split: option.splits if_splits)

lemma allocate_miss:
  assumes "allocate k szT a n env st = Some (p, st')"
    and "bucket (free_list a st) (to_alloc k szT n) = []"
  shows "free_list a st' = (free_list a st)(to_alloc k szT n \<mapsto> [])"
    and "(p = NULL \<and> registry a st' = registry a st)
         \<or> (registry a st' = (registry a st)(p \<mapsto> to_alloc k szT n)
             \<and> size_maps st' (sizes a) \<noteq> None
             \<and> (p = MAP_FAILED \<or> mmap_addr env = Some p))"
proof -
  obtain fm where fm: "free_maps st (free_blocks a) = Some fm"
    using assms(1) by (auto simp: allocate_def split: option.splits if_splits)
  let ?S = "to_alloc k szT n"
  let ?st0 = "st\<lparr>free_maps := (free_maps st)(free_blocks a \<mapsto> fm(?S \<mapsto> []))\<rparr>"
  have b: "bucket fm ?S = []" using assms(2) fm by (simp add: free_list_def)
  have g: "grow k a ?S env ?st0 = Some (p, st')"
    using assms(1) fm b by (auto simp: allocate_def Let_def split: if_splits)
  from grow_effect(1)[OF g]
  show "free_list a st' = (free_list a st)(?S \<mapsto> [])"
    using fm by (simp add: free_list_def)
  from grow_effect(2)[OF g]
  show "(p = NULL \<and> registry a st' = registry a st)
         \<or> (registry a st' = (registry a st)(p \<mapsto> ?S)
             \<and> size_maps st' (sizes a) \<noteq> None
             \<and> (p = MAP_FAILED \<or> mmap_addr env = Some p))"
    by (auto simp: registry_def)
qed

lemma allocate_valid:
  assumes "allocate k szT a n env st = Some (p, st')" and "valid a st"
  shows "valid a st'"
proof (cases "bucket (free_list a st) (to_alloc k szT n) = []")
  case True
  obtain fm where fm: "free_maps st (free_blocks a) = Some fm"
    using assms(1) by (auto simp: allocate_def split: option.splits if_splits)
  let ?S = "to_alloc k szT n"
  let ?st0 = "st\<lparr>free_maps := (free_maps st)(free_blocks a \<mapsto> fm(?S \<mapsto> []))\<rparr>"
  have b: "bucket fm ?S = []" using True fm by (simp add: free_list_def)
  have g: "grow k a ?S env ?st0 = Some (p, st')"
    using assms(1) fm b by (auto simp: allocate_def Let_def split: if_splits)
  show ?thesis using grow_effect[OF g] assms(2) by (auto simp: valid_def)
next
  case False
  then show ?thesis using assms
    by (auto simp: allocate_def Let_def free_list_def valid_def split: option.splits if_splits)
qed

lemma allocate_Some:
  assumes "valid a st" and "(word_of_int k :: size_t) \<noteq> 0"
  shows "\<exists>p st'. allocate k szT a n env st = Some (p, st')"
proof -
  obtain fm where fm: "free_maps st (free_blocks a) = Some fm"
    using assms(1) by (auto simp: valid_def)
  let ?S = "to_alloc k szT n"
  let ?st0 = "st\<lparr>free_maps := (free_maps st)(free_blocks a \<mapsto> fm(?S \<mapsto> []))\<rparr>"
  have "size_maps ?st0 (sizes a) \<noteq> None" using assms(1) by (simp add: valid_def)
  from grow_Some[OF this] obtain p st' where "grow k a ?S env ?st0 = Some (p, st')" by blast
  then show ?thesis using fm assms(2)
    by (auto simp: allocate_def Let_def)
qed

lemma deallocate_effect:
  assumes "deallocate a p n st = Some st'"
  shows "registry a st' = (registry a st)(p \<mapsto> size_at (registry a st) p)"
    and "free_list a st' = (free_list a st)(size_at (registry a st) p \<mapsto>
            bucket (free_list a st) (size_at (registry a st) p) @ [p])"
    and "os st' = os st"
    and "valid a st'"
  using assms
  by (auto simp: deallocate_def Let_def registry_def free_list_def valid_def split: option.splits)

lemma deallocate_Some:
  assumes "valid a st"
  shows "\<exists>st'. deallocate a p n st = Some st'"
  using assms by (auto simp: deallocate_def valid_def Let_def)

section \<open>Registry completeness\<close>

lemma bucket_upd: "bucket (fm(S \<mapsto> v)) S' = (if S' = S then v else bucket fm S')"
  by (simp add: bucket_def)

lemma New_handle:
  assumes "New filename kfd st0 = (Some r, st1)" and "allocators st1 r = Some a"
  shows "valid a st1" and "registry a st1 = Map.empty" and "free_list a st1 = Map.empty"
  using assms
  by (auto simp: New_def Let_def valid_def registry_def free_list_def split: prod.splits if_splits)






text \<open>The definitions that a run on concrete arguments unfolds, and the arena of the tests.\<close>

lemmas model_defs = New_def init_process_def open_trunc_def Let_def allocate_def grow_def
      to_alloc_def bucket_def size_at_def lseek_end_def write_byte_def mmap_shared_def env_ok_def
      MAP_FAILED_def NULL_def registry_def free_list_def deallocate_def test_process_def test_handle_def

lemma test_process_maps:
  "size_maps test_process (sizes test_handle) = Some Map.empty"
  "free_maps test_process (free_blocks test_handle) = Some Map.empty"
  "allocators test_process 2 = Some test_handle"
  "New ''test.db'' 3 init_process = (Some 2, test_process)"
  by (simp_all add: model_defs)



section \<open>Reuse of freed blocks\<close>

lemma consistentD:
  assumes "consistent a st" and "q \<in> set (bucket (free_list a st) S)" and "q \<noteq> MAP_FAILED"
  shows "registry a st q = Some S"
  using assms by (auto simp: consistent_def)

lemma consistentI:
  assumes "\<And>S q. q \<in> set (bucket (free_list a st) S) \<Longrightarrow> q \<noteq> MAP_FAILED \<Longrightarrow> registry a st q = Some S"
  shows "consistent a st"
  using assms by (auto simp: consistent_def)

lemma step_consistent:
  assumes "consistent a (fst s)" and "fresh_call a c (fst s)" and "step k a c s = Some s'"
  shows "consistent a (fst s')"
proof (cases s)
  case (Pair st live)
  have inv: "consistent a st" using assms(1) Pair by simp
  show ?thesis
  proof (cases c)
    case (Allocate szT n env)
    then obtain p st' where al: "allocate k szT a n env st = Some (p, st')"
      and s': "fst s' = st'"
      using assms(3) Pair by (auto split: option.splits)
    let ?S = "to_alloc k szT n"
    have fr: "mmap_addr env = Some p \<Longrightarrow> registry a st p = None"
      using assms(2) Pair Allocate by simp
    show ?thesis unfolding s'
    proof (cases "bucket (free_list a st) ?S = []")
      case True
      note m = allocate_miss[OF al True]
      show "consistent a st'"
      proof (rule consistentI)
        fix S q assume q: "q \<in> set (bucket (free_list a st') S)" and nf: "q \<noteq> MAP_FAILED"
        have q0: "q \<in> set (bucket (free_list a st) S)"
          using q m(1) by (auto simp: bucket_upd split: if_splits)
        have r: "registry a st q = Some S" using inv q0 nf by (rule consistentD)
        show "registry a st' q = Some S"
        proof (cases "q = p")
          case True
          then show ?thesis using m(2) r nf fr by auto
        next
          case False
          then show ?thesis using m(2) r by auto
        qed
      qed
    next
      case False
      note h = allocate_hit[OF al False]
      show "consistent a st'"
      proof (rule consistentI)
        fix S q assume q: "q \<in> set (bucket (free_list a st') S)" and nf: "q \<noteq> MAP_FAILED"
        have q0: "q \<in> set (bucket (free_list a st) S)"
          using q h(2) by (auto simp: bucket_upd dest: in_set_butlastD split: if_splits)
        then show "registry a st' q = Some S"
          using inv nf h(3) by (simp add: consistentD)
      qed
    qed
  next
    case (Deallocate p n)
    then obtain st' where de: "deallocate a p n st = Some st'" and s': "fst s' = st'"
      using assms(3) Pair by (auto split: option.splits)
    note d = deallocate_effect[OF de]
    let ?s = "size_at (registry a st) p"
    show ?thesis unfolding s'
    proof (rule consistentI)
      fix S q assume q: "q \<in> set (bucket (free_list a st') S)" and nf: "q \<noteq> MAP_FAILED"
      show "registry a st' q = Some S"
      proof (cases "q = p")
        case True
        have "S = ?s"
        proof (rule ccontr)
          assume ne: "S \<noteq> ?s"
          then have "p \<in> set (bucket (free_list a st) S)"
            using q True d(2) by (simp add: bucket_upd)
          then have "registry a st p = Some S" using inv nf True by (simp add: consistentD)
          then show False using ne by (simp add: size_at_def)
        qed
        then show ?thesis using True d(1) by simp
      next
        case False
        then have "q \<in> set (bucket (free_list a st) S)"
          using q d(2) by (auto simp: bucket_upd split: if_splits)
        then have "registry a st q = Some S" using inv nf by (simp add: consistentD)
        then show ?thesis using False d(1) by simp
      qed
    qed
  qed
qed

lemma run_consistent:
  assumes "consistent a (fst s)" and "fresh_run k a cs s" and "run k a cs s = Some s'"
  shows "consistent a (fst s')"
  using assms
proof (induction cs arbitrary: s)
  case Nil
  then show ?case by simp
next
  case (Cons c cs)
  from Cons.prems(3) obtain s1 where s1: "step k a c s = Some s1" and r: "run k a cs s1 = Some s'"
    by (auto split: option.splits)
  from Cons.prems(2) s1 have f: "fresh_call a c (fst s)" and fr: "fresh_run k a cs s1"
    by auto
  have "consistent a (fst s1)" using Cons.prems(1) f s1 by (rule step_consistent)
  then show ?case using fr r by (rule Cons.IH)
qed

text \<open>The size map records the rounded size of a block that \<^verbatim>\<open>allocate\<close> returns.\<close>

lemma allocate_size_recorded:
  assumes "consistent a st" and "allocate k szT a n env st = Some (p, st')"
    and "p \<noteq> NULL" and "p \<noteq> MAP_FAILED"
  shows "registry a st' p = Some (to_alloc k szT n)"
proof (cases "bucket (free_list a st) (to_alloc k szT n) = []")
  case True
  from allocate_miss(2)[OF assms(2) True] assms(3) show ?thesis by auto
next
  case False
  note h = allocate_hit[OF assms(2) False]
  have "p \<in> set (bucket (free_list a st) (to_alloc k szT n))" using False h(1) by simp
  then have "registry a st p = Some (to_alloc k szT n)"
    using assms(1,4) by (simp add: consistentD)
  then show ?thesis using h(3) by simp
qed

lemma step_valid:
  assumes "valid a (fst s)" and "step k a c s = Some s'"
  shows "valid a (fst s')"
proof (cases s)
  case (Pair st live)
  show ?thesis
  proof (cases c)
    case (Allocate szT n env)
    then show ?thesis using assms Pair
      by (auto split: option.splits dest: allocate_valid)
  next
    case (Deallocate p n)
    then show ?thesis using assms Pair
      by (auto split: option.splits dest: deallocate_effect(4))
  qed
qed

text \<open>Quiet calls leave the bucket as it is.\<close>

lemma quiet_step_bucket:
  assumes "quiet_call k a S c (fst s)" and "step k a c s = Some s'"
  shows "bucket (free_list a (fst s')) S = bucket (free_list a (fst s)) S"
proof (cases s)
  case (Pair st live)
  show ?thesis
  proof (cases c)
    case (Allocate szT n env)
    then obtain p st' where al: "allocate k szT a n env st = Some (p, st')"
      and s': "fst s' = st'"
      using assms(2) Pair by (auto split: option.splits)
    have ne: "to_alloc k szT n \<noteq> S" using assms(1) Allocate by simp
    show ?thesis
    proof (cases "bucket (free_list a st) (to_alloc k szT n) = []")
      case True
      from allocate_miss(1)[OF al True] ne show ?thesis
        by (simp add: s' Pair bucket_upd)
    next
      case False
      from allocate_hit(2)[OF al False] ne show ?thesis
        by (simp add: s' Pair bucket_upd)
    qed
  next
    case (Deallocate p n)
    then obtain st' where de: "deallocate a p n st = Some st'" and s': "fst s' = st'"
      using assms(2) Pair by (auto split: option.splits)
    have ne: "size_at (registry a st) p \<noteq> S" using assms(1) Deallocate Pair by simp
    from deallocate_effect(2)[OF de] ne show ?thesis
      by (simp add: s' Pair bucket_upd)
  qed
qed

lemma quiet_run_bucket:
  assumes "quiet_run k a S cs s" and "run k a cs s = Some s'"
  shows "bucket (free_list a (fst s')) S = bucket (free_list a (fst s)) S"
  using assms
proof (induction cs arbitrary: s)
  case Nil
  then show ?case by simp
next
  case (Cons c cs)
  from Cons.prems(2) obtain s1 where s1: "step k a c s = Some s1" and r: "run k a cs s1 = Some s'"
    by (auto split: option.splits)
  from Cons.prems(1) s1 have q: "quiet_call k a S c (fst s)" and qr: "quiet_run k a S cs s1"
    by auto
  have "bucket (free_list a (fst s')) S = bucket (free_list a (fst s1)) S"
    using qr r by (rule Cons.IH)
  also have "\<dots> = bucket (free_list a (fst s)) S" using q s1 by (rule quiet_step_bucket)
  finally show ?case .
qed

text \<open>A block on the free list is handed out without a system call.\<close>

lemma allocate_reuses:
  assumes "(word_of_int k :: size_t) \<noteq> 0"
    and "bucket (free_list a st) (to_alloc k szU m) \<noteq> []"
  shows "\<exists>st'. allocate k szU a m env st = Some (last (bucket (free_list a st) (to_alloc k szU m)), st')
           \<and> os st' = os st"
  using assms
  by (auto simp: allocate_def Let_def free_list_def bucket_def split: option.splits)

lemma rounds_return:
  assumes "registry a st p = Some S" and "valid a st" and "(word_of_int k :: size_t) \<noteq> 0"
    and "\<forall>(n2, szU, m2, env2) \<in> set rs. to_alloc k szU m2 = S"
  shows "\<exists>st'. rounds k a p rs st = Some (replicate (length rs) p, st') \<and> os st' = os st"
  using assms
proof (induction rs arbitrary: st)
  case Nil
  then show ?case by simp
next
  case (Cons r rs)
  obtain n szU m env where r: "r = (n, szU, m, env)" by (cases r) auto
  have S: "to_alloc k szU m = S" using Cons.prems(4) r by simp
  obtain st1 where d: "deallocate a p n st = Some st1"
    using deallocate_Some[OF Cons.prems(2)] by blast
  note de = deallocate_effect[OF d]
  have sz: "size_at (registry a st) p = S" using Cons.prems(1) by (simp add: size_at_def)
  have b: "bucket (free_list a st1) (to_alloc k szU m) = bucket (free_list a st) S @ [p]"
    using de(2) sz S by (simp add: bucket_upd)
  then have ne: "bucket (free_list a st1) (to_alloc k szU m) \<noteq> []" by simp
  from allocate_reuses[OF Cons.prems(3) ne, of env] b
  obtain st2 where al: "allocate k szU a m env st1 = Some (p, st2)" and o2: "os st2 = os st1"
    by auto
  have r2: "registry a st2 p = Some S"
    using allocate_hit(3)[OF al ne] de(1) sz by simp
  have v2: "valid a st2" using al de(4) by (rule allocate_valid)
  have "\<forall>(n2, szU, m2, env2) \<in> set rs. to_alloc k szU m2 = S" using Cons.prems(4) by simp
  from Cons.IH[OF r2 v2 Cons.prems(3) this]
  obtain st' where rr: "rounds k a p rs st2 = Some (replicate (length rs) p, st')"
    and o': "os st' = os st2" by blast
  show ?case using d al rr o' o2 de(3) by (simp add: r)
qed

lemma run_valid:
  assumes "valid a (fst s)" and "run k a cs s = Some s'"
  shows "valid a (fst s')"
  using assms
proof (induction cs arbitrary: s)
  case Nil
  then show ?case by simp
next
  case (Cons c cs)
  then show ?case by (auto split: option.splits dest: step_valid)
qed

text \<open>Where \<^verbatim>\<open>mmap\<close> gives new addresses, an address keeps the size it has in the size map.\<close>

lemma step_keeps_size:
  assumes "registry a (fst s) p = Some S" and "p \<noteq> MAP_FAILED"
    and "fresh_call a c (fst s)" and "step k a c s = Some s'"
  shows "registry a (fst s') p = Some S"
proof (cases s)
  case (Pair st live)
  have reg: "registry a st p = Some S" using assms(1) Pair by simp
  show ?thesis
  proof (cases c)
    case (Allocate szT n env)
    then obtain q st' where al: "allocate k szT a n env st = Some (q, st')"
      and s': "fst s' = st'"
      using assms(4) Pair by (auto split: option.splits)
    have fr: "mmap_addr env = Some p \<Longrightarrow> registry a st p = None"
      using assms(3) Pair Allocate by simp
    show ?thesis unfolding s'
    proof (cases "bucket (free_list a st) (to_alloc k szT n) = []")
      case True
      from allocate_miss(2)[OF al True] reg fr assms(2) show "registry a st' p = Some S"
        by (cases "q = p") auto
    next
      case False
      from allocate_hit(3)[OF al False] reg show "registry a st' p = Some S" by simp
    qed
  next
    case (Deallocate q n)
    then obtain st' where de: "deallocate a q n st = Some st'" and s': "fst s' = st'"
      using assms(4) Pair by (auto split: option.splits)
    from deallocate_effect(1)[OF de] reg show ?thesis
      unfolding s' by (cases "q = p") (simp_all add: size_at_def)
  qed
qed

lemma run_keeps_size:
  assumes "registry a (fst s) p = Some S" and "p \<noteq> MAP_FAILED"
    and "fresh_run k a cs s" and "run k a cs s = Some s'"
  shows "registry a (fst s') p = Some S"
  using assms
proof (induction cs arbitrary: s)
  case Nil
  then show ?case by simp
next
  case (Cons c cs)
  from Cons.prems(4) obtain s1 where s1: "step k a c s = Some s1" and r: "run k a cs s1 = Some s'"
    by (auto split: option.splits)
  from Cons.prems(3) s1 have f: "fresh_call a c (fst s)" and fr: "fresh_run k a cs s1"
    by auto
  have "registry a (fst s1) p = Some S" using Cons.prems(1,2) f s1 by (rule step_keeps_size)
  then show ?case using Cons.prems(2) fr r by (rule Cons.IH)
qed

text \<open>
  C2. Last-in-first-out reuse. The claim lets anything but an \<^verbatim>\<open>allocate\<close> of rounded
  size \<open>S\<close> come between the \<^verbatim>\<open>deallocate\<close> and the second \<^verbatim>\<open>allocate\<close>; a
  \<^verbatim>\<open>deallocate\<close> of another block of size \<open>S\<close> in between puts that block on top. What
  holds: in a state reached from \<^verbatim>\<open>New\<close> by calls in which \<^verbatim>\<open>mmap\<close> gave new addresses,
  let \<^verbatim>\<open>allocate\<close> return a block \<open>p\<close> (not null, not \<^verbatim>\<open>MAP_FAILED\<close>) of rounded size
  \<open>S\<close>, and let \<open>p\<close> be deallocated. After any calls \<open>mid\<close> that are neither an
  \<^verbatim>\<open>allocate\<close> of rounded size \<open>S\<close> nor a \<^verbatim>\<open>deallocate\<close> of an address of size \<open>S\<close>, an
  \<^verbatim>\<open>allocate\<close> of rounded size \<open>S\<close>, through a handle of any element type, returns \<open>p\<close>
  and leaves the operating system's state, and with it the length of the file, as it
  is. So does the \<^verbatim>\<open>allocate\<close> of every further round \<open>rs\<close> of \<^verbatim>\<open>deallocate\<close> of \<open>p\<close> and
  \<^verbatim>\<open>allocate\<close> of rounded size \<open>S\<close>.
\<close>

theorem lifo_reuse:
  assumes "New filename kfd st0 = (Some r, st1)" and "allocators st1 r = Some a"
    and "fresh_run kPageSize a cs (st1, {})"
    and "run kPageSize a cs (st1, {}) = Some (st, live)"
    and "allocate kPageSize sizeof_T a n env st = Some (p, st')"
    and "p \<noteq> NULL" and "p \<noteq> MAP_FAILED"
    and "deallocate a p n' st' = Some st''"
    and "fresh_run kPageSize a mid (st'', live')"
    and "quiet_run kPageSize a (to_alloc kPageSize sizeof_T n) mid (st'', live')"
    and "run kPageSize a mid (st'', live') = Some (st3, live3)"
    and "to_alloc kPageSize sizeof_U m = to_alloc kPageSize sizeof_T n"
    and "\<forall>(n2, sizeof_V, m2, env2) \<in> set rs.
           to_alloc kPageSize sizeof_V m2 = to_alloc kPageSize sizeof_T n"
  shows "\<exists>st4 st5. allocate kPageSize sizeof_U a m env' st3 = Some (p, st4) \<and> os st4 = os st3
           \<and> rounds kPageSize a p rs st4 = Some (replicate (length rs) p, st5)
           \<and> os st5 = os st4"
proof -
  let ?S = "to_alloc kPageSize sizeof_T n"
  have "consistent a (fst (st1, {}))"
    using New_handle(3)[OF assms(1,2)] by (simp add: consistent_def bucket_def)
  then have "consistent a (fst (st, live))" using assms(3,4) by (rule run_consistent)
  then have c: "consistent a st" by simp
  have rec: "registry a st' p = Some ?S"
    using c assms(5,6,7) by (rule allocate_size_recorded)
  then have sz: "size_at (registry a st') p = ?S" by (simp add: size_at_def)
  note de = deallocate_effect[OF assms(8)]
  have b2: "bucket (free_list a st'') ?S = bucket (free_list a st') ?S @ [p]"
    using de(2) sz by (simp add: bucket_upd)
  have "bucket (free_list a (fst (st3, live3))) ?S = bucket (free_list a (fst (st'', live'))) ?S"
    using assms(10,11) by (rule quiet_run_bucket)
  then have b3: "bucket (free_list a st3) (to_alloc kPageSize sizeof_U m)
                   = bucket (free_list a st') ?S @ [p]"
    using b2 assms(12) by simp
  have k: "(word_of_int kPageSize :: size_t) \<noteq> 0"
    using assms(5) by (auto simp: allocate_def split: if_splits)
  from b3 have ne: "bucket (free_list a st3) (to_alloc kPageSize sizeof_U m) \<noteq> []" by simp
  from allocate_reuses[OF k ne, of env'] b3
  obtain st4 where al: "allocate kPageSize sizeof_U a m env' st3 = Some (p, st4)"
    and o4: "os st4 = os st3" by auto
  have "registry a (fst (st'', live')) p = Some ?S" using de(1) rec sz by simp
  then have "registry a (fst (st3, live3)) p = Some ?S"
    using assms(7,9,11) by (rule run_keeps_size)
  then have r4: "registry a st4 p = Some ?S"
    using allocate_hit(3)[OF al ne] by simp
  have "valid a (fst (st'', live'))" using de(4) by simp
  then have "valid a (fst (st3, live3))" using assms(11) by (rule run_valid)
  then have "valid a st3" by simp
  with al have v4: "valid a st4" by (rule allocate_valid)
  have "\<forall>(n2, sizeof_V, m2, env2) \<in> set rs. to_alloc kPageSize sizeof_V m2 = ?S"
    using assms(13) .
  from rounds_return[OF r4 v4 k this]
  obtain st5 where "rounds kPageSize a p rs st4 = Some (replicate (length rs) p, st5)"
    and "os st5 = os st4" by blast
  with al o4 show ?thesis by blast
qed

lemma test_round:
  "\<exists>st' st'' st3 live3.
      allocate 4096 4 test_handle 10 (env_ok 65536) test_process = Some (65536, st')
    \<and> deallocate test_handle 65536 10 st' = Some st''
    \<and> fresh_run 4096 test_handle [Allocate 1 5000 (env_ok 131072)] (st'', {})
    \<and> quiet_run 4096 test_handle 4096 [Allocate 1 5000 (env_ok 131072)] (st'', {})
    \<and> run 4096 test_handle [Allocate 1 5000 (env_ok 131072)] (st'', {}) = Some (st3, live3)
    \<and> files (os st3) ''test.db'' = Some 12288"
  by (simp add: model_defs)

text \<open>
  A block of one page is allocated at 65536 and deallocated; two pages are allocated in
  between; 512 eight-byte elements then get the block at 65536 back, and so do 4000
  one-byte and 2048 two-byte elements in two further rounds.
\<close>

theorem lifo_reuse_witness:
  "New ''test.db'' 3 init_process = (Some 2, test_process)
   \<and> allocators test_process 2 = Some test_handle
   \<and> fresh_run 4096 test_handle [] (test_process, {})
   \<and> run 4096 test_handle [] (test_process, {}) = Some (test_process, {})
   \<and> (65536 :: addr) \<noteq> NULL \<and> (65536 :: addr) \<noteq> MAP_FAILED
   \<and> to_alloc 4096 8 512 = to_alloc 4096 4 10
   \<and> to_alloc 4096 1 4000 = to_alloc 4096 4 10
   \<and> to_alloc 4096 2 2048 = to_alloc 4096 4 10
   \<and> (\<exists>st' st'' st3 live3.
          allocate 4096 4 test_handle 10 (env_ok 65536) test_process = Some (65536, st')
        \<and> deallocate test_handle 65536 10 st' = Some st''
        \<and> fresh_run 4096 test_handle [Allocate 1 5000 (env_ok 131072)] (st'', {})
        \<and> quiet_run 4096 test_handle (to_alloc 4096 4 10) [Allocate 1 5000 (env_ok 131072)] (st'', {})
        \<and> run 4096 test_handle [Allocate 1 5000 (env_ok 131072)] (st'', {}) = Some (st3, live3)
        \<and> (\<exists>st4 st5. allocate 4096 8 test_handle 512 (env_ok 196608) st3 = Some (65536, st4)
               \<and> os st4 = os st3
               \<and> rounds 4096 test_handle 65536
                    [(512, 1, 4000, env_ok 196608), (512, 2, 2048, env_ok 196608)] st4
                  = Some ([65536, 65536], st5)
               \<and> os st5 = os st4))"
proof -
  have ta: "to_alloc 4096 4 10 = 4096" "to_alloc 4096 8 512 = 4096"
    "to_alloc 4096 1 4000 = 4096" "to_alloc 4096 2 2048 = 4096"
    by (simp_all add: to_alloc_def)
  obtain st' st'' st3 live3 where
      a: "allocate 4096 4 test_handle 10 (env_ok 65536) test_process = Some (65536, st')"
    and d: "deallocate test_handle 65536 10 st' = Some st''"
    and fm: "fresh_run 4096 test_handle [Allocate 1 5000 (env_ok 131072)] (st'', {})"
    and q: "quiet_run 4096 test_handle (to_alloc 4096 4 10) [Allocate 1 5000 (env_ok 131072)] (st'', {})"
    and r: "run 4096 test_handle [Allocate 1 5000 (env_ok 131072)] (st'', {}) = Some (st3, live3)"
    using test_round unfolding ta by blast
  have f: "fresh_run 4096 test_handle [] (test_process, {})" by simp
  have r0: "run 4096 test_handle [] (test_process, {}) = Some (test_process, {})" by simp
  have n: "(65536 :: addr) \<noteq> NULL" "(65536 :: addr) \<noteq> MAP_FAILED"
    by (simp_all add: NULL_def MAP_FAILED_def)
  have e: "to_alloc 4096 8 512 = to_alloc 4096 4 10" by (simp add: ta)
  have rs: "\<forall>(n2, sizeof_V, m2, env2) \<in> set [(512 :: size_t, 1, 4000, env_ok 196608), (512, 2, 2048, env_ok 196608)].
              to_alloc 4096 sizeof_V m2 = to_alloc 4096 4 10"
    by (simp add: ta)
  from lifo_reuse[OF test_process_maps(4) test_process_maps(3) f r0 a n d fm q r e rs,
      of "env_ok 196608"]
  have "\<exists>st4 st5. allocate 4096 8 test_handle 512 (env_ok 196608) st3 = Some (65536, st4)
               \<and> os st4 = os st3
               \<and> rounds 4096 test_handle 65536
                    [(512, 1, 4000, env_ok 196608), (512, 2, 2048, env_ok 196608)] st4
                  = Some ([65536, 65536], st5)
               \<and> os st5 = os st4"
    by (simp add: numeral_2_eq_2)
  with a d fm q r show ?thesis
    using n ta by (auto simp: test_process_maps)
qed

text \<open>
  Three one-page blocks are allocated, at 65536, 131072 and 196608. The third is
  deallocated, then the first. No \<^verbatim>\<open>allocate\<close> has come in between, and the next
  \<^verbatim>\<open>allocate\<close> of one page returns the first block, not the third.
\<close>

theorem lifo_reuse_counterexample:
  "map_option (\<lambda>(st, live). map_option fst (allocate 4096 1 test_handle 1 (env_ok 196608) st))
     (run 4096 test_handle [Allocate 1 1 (env_ok 65536), Allocate 1 1 (env_ok 131072)]
        (test_process, {}))
     = Some (Some 196608)
   \<and> map_option (\<lambda>(st, live). map_option fst (allocate 4096 1 test_handle 1 (env_ok 262144) st))
     (run 4096 test_handle
        [Allocate 1 1 (env_ok 65536), Allocate 1 1 (env_ok 131072), Allocate 1 1 (env_ok 196608),
         Deallocate 196608 1, Deallocate 65536 1]
        (test_process, {}))
     = Some (Some 65536)"
  by (simp add: model_defs)

section \<open>Sizes in the size map\<close>

text \<open>An entry of the size map that a call of \<^verbatim>\<open>allocate\<close> made is for the address
  returned, with the block size of the request.\<close>

lemma allocate_records:
  assumes "allocate k szT a n env st = Some (p, st')"
    and "registry a st' q = Some s" and "registry a st q \<noteq> Some s"
  shows "q = p \<and> s = to_alloc k szT n"
proof (cases "bucket (free_list a st) (to_alloc k szT n) = []")
  case True
  from allocate_miss(2)[OF assms(1) True] assms(2,3) show ?thesis
    by (auto split: if_splits)
next
  case False
  from allocate_hit(3)[OF assms(1) False] assms(2,3) show ?thesis by simp
qed

text \<open>A mapping of length zero is refused: with block size 0 the growth path returns
  null and records nothing, or returns \<^verbatim>\<open>MAP_FAILED\<close>.\<close>

lemma grow_zero:
  assumes "grow k a 0 env st = Some (p, st')"
  shows "(p = NULL \<and> size_maps st' = size_maps st) \<or> p = MAP_FAILED"
  using assms
  by (auto simp: grow_def mmap_shared_def Let_def split: prod.splits if_splits option.splits)

text \<open>An entry that \<^verbatim>\<open>allocate\<close> makes for an address other than \<^verbatim>\<open>MAP_FAILED\<close> has a
  size that is not zero.\<close>

lemma recorded_size_positive:
  assumes "allocate k szT a n env st = Some (p, st')"
    and "registry a st' q = Some s" and "registry a st q \<noteq> Some s"
    and "q \<noteq> MAP_FAILED"
  shows "0 < unat s"
proof (rule ccontr)
  assume "\<not> 0 < unat s"
  then have s0: "s = 0" by (simp add: unat_eq_0)
  have qs: "q = p \<and> s = to_alloc k szT n" using assms(1,2,3) by (rule allocate_records)
  then have z: "to_alloc k szT n = 0" and qp: "q = p" using s0 by simp_all
  show False
  proof (cases "bucket (free_list a st) (to_alloc k szT n) = []")
    case True
    obtain fm where fm: "free_maps st (free_blocks a) = Some fm"
      using assms(1) by (auto simp: allocate_def split: option.splits if_splits)
    let ?st0 = "st\<lparr>free_maps := (free_maps st)(free_blocks a \<mapsto> fm(0 \<mapsto> []))\<rparr>"
    have b: "bucket fm 0 = []" using True fm z by (simp add: free_list_def)
    have g: "grow k a 0 env ?st0 = Some (p, st')"
      using assms(1) fm b z by (auto simp: allocate_def Let_def split: if_splits)
    from grow_zero[OF g] assms(4) qp have "size_maps st' = size_maps ?st0" by auto
    then have "registry a st' = registry a st" by (simp add: registry_def)
    then show False using assms(2,3) by simp
  next
    case False
    from allocate_hit(3)[OF assms(1) False] assms(2,3) show False by simp
  qed
qed

text \<open>On a page size that is a power of two, every block size is a multiple of the
  page size, also where the arithmetic wraps.\<close>

lemma to_alloc_dvd_pow2:
  assumes "j < 64"
  shows "nat (2 ^ j) dvd unat (to_alloc (2 ^ j) szT n)"
proof -
  define ps where "ps = (word_of_int (2 ^ j) :: size_t)"
  define t where "t = n * szT"
  have n2: "nat (2 ^ j) = (2 :: nat) ^ j" by (simp add: nat_power_eq)
  have lt: "(2 :: nat) ^ j < 2 ^ 64" by (rule power_strict_increasing[OF assms]) simp
  have ps: "unat ps = 2 ^ j"
    unfolding ps_def using unat_pagesize[of "2 ^ j"] lt n2 by simp
  have "j \<le> 64" using assms by simp
  then have d64: "(2 :: nat) ^ j dvd 2 ^ 64" by (rule le_imp_power_dvd)
  have ta: "to_alloc (2 ^ j) szT n = (if t mod ps \<noteq> 0 then (t div ps + 1) * ps else t)"
    by (simp only: to_alloc_def Let_def t_def ps_def)
  show ?thesis
  proof (cases "t mod ps = 0")
    case True
    then have "unat (t mod ps) = 0" by (simp only: unat_0)
    then have "unat t mod 2 ^ j = 0" by (simp only: unat_mod ps)
    then have "(2 :: nat) ^ j dvd unat t" by (simp add: dvd_eq_mod_eq_0)
    moreover have "to_alloc (2 ^ j) szT n = t" using True by (simp add: ta)
    ultimately show ?thesis unfolding n2 by (simp only:)
  next
    case False
    have "unat ((t div ps + 1) * ps) = (unat (t div ps + 1) * unat ps) mod 2 ^ 64"
      by (simp only: unat_word_ariths(2) len_of_numeral_defs) simp
    moreover have "(2 :: nat) ^ j dvd (unat (t div ps + 1) * 2 ^ j) mod 2 ^ 64"
      using d64 by (simp add: dvd_mod)
    ultimately have "(2 :: nat) ^ j dvd unat ((t div ps + 1) * ps)" by (simp add: ps)
    moreover have "to_alloc (2 ^ j) szT n = (t div ps + 1) * ps" using False by (simp add: ta)
    ultimately show ?thesis unfolding n2 by (simp only:)
  qed
qed

text \<open>So what the claim says holds of every entry made for a block.\<close>

lemma recorded_size_real_block:
  assumes "j < 64"
    and "allocate (2 ^ j) szT a n env st = Some (p, st')"
    and "registry a st' q = Some s" and "registry a st q \<noteq> Some s"
    and "q \<noteq> MAP_FAILED"
  shows "q = p \<and> s = to_alloc (2 ^ j) szT n \<and> nat (2 ^ j) dvd unat s \<and> 0 < unat s"
proof -
  have qs: "q = p \<and> s = to_alloc (2 ^ j) szT n" using assms(2,3,4) by (rule allocate_records)
  moreover have "nat (2 ^ j) dvd unat s" using qs to_alloc_dvd_pow2[OF assms(1), of szT n] by (simp only:)
  moreover have "0 < unat s" using assms(2,3,4,5) by (rule recorded_size_positive)
  ultimately show ?thesis by simp
qed

text \<open>
  C9. Sizes recorded. The claim is that every block size that \<^verbatim>\<open>allocate\<close> produces and
  records in the size map is a positive multiple of the page size, for every element
  count including zero. By the lemmas above it holds of every entry made for an
  address other than \<^verbatim>\<open>MAP_FAILED\<close>. It fails for \<^verbatim>\<open>MAP_FAILED\<close>, which \<^verbatim>\<open>allocate\<close> records
  because it does not check the result of \<^verbatim>\<open>mmap\<close>: after ten four-byte elements have
  been allocated on 4096-byte pages, \<^verbatim>\<open>allocate(0)\<close> computes the block size 0, finds no
  block of size 0, seeks to the last byte of the file, writes it, and is refused the
  mapping of length 0; it returns \<^verbatim>\<open>MAP_FAILED\<close>, and the size map, which had no entry
  for \<^verbatim>\<open>MAP_FAILED\<close>, has the entry 0 for it.
\<close>

theorem zero_size_recorded:
  "to_alloc 4096 4 0 = 0
   \<and> map_option (\<lambda>(st, live). registry test_handle st MAP_FAILED)
        (run 4096 test_handle [Allocate 4 10 (env_ok 65536)] (test_process, {}))
      = Some None
   \<and> map_option (\<lambda>(st, live). map_option fst (allocate 4096 4 test_handle 0 (env_ok 131072) st))
        (run 4096 test_handle [Allocate 4 10 (env_ok 65536)] (test_process, {}))
      = Some (Some MAP_FAILED)
   \<and> map_option (\<lambda>(st, live). registry test_handle st MAP_FAILED)
        (run 4096 test_handle [Allocate 4 10 (env_ok 65536), Allocate 4 0 (env_ok 131072)]
           (test_process, {}))
      = Some (Some 0)"
  by (simp add: model_defs)

section \<open>Handles that share an arena\<close>

lemma obtained_from_same:
  assumes "obtained_from h st0 (h', st)"
  shows "h' = h"
    and "st = st0\<lparr>size_uses := (size_uses st0)(sizes h := size_uses st0 (sizes h) + 1),
                  free_uses := (free_uses st0)(free_blocks h := free_uses st0 (free_blocks h) + 1)\<rparr>"
  using assms
  by (auto simp: obtained_from_def Allocator_copy_def Allocator_default_def split: option.splits)

lemma deallocate_then_allocate:
  assumes "valid h st" and "(word_of_int k :: size_t) \<noteq> 0"
    and "to_alloc k szU m = size_at (registry h st) p"
  shows "\<exists>st2 st3. deallocate h p n st = Some st2 \<and> allocate k szU h m env st2 = Some (p, st3)"
proof -
  obtain st2 where d: "deallocate h p n st = Some st2"
    using deallocate_Some[OF assms(1)] by blast
  have b: "bucket (free_list h st2) (to_alloc k szU m)
             = bucket (free_list h st) (to_alloc k szU m) @ [p]"
    using deallocate_effect(2)[OF d] assms(3) by (simp add: bucket_upd)
  then have ne: "bucket (free_list h st2) (to_alloc k szU m) \<noteq> []" by simp
  from allocate_reuses[OF assms(2) ne, of env] b d show ?thesis by auto
qed

text \<open>
  C6. Sharing. A handle obtained from \<open>h\<close> by copying, by conversion to another element
  type, or by default construction while \<^verbatim>\<open>default_allocator\<close> points to \<open>h\<close>, has the
  descriptor and the two references of \<open>h\<close>; the constructor creates no map and leaves
  the maps and the operating system's state as they are (it adds a use to each map).
  An address deallocated through one of the two handles is returned by the next
  \<^verbatim>\<open>allocate\<close> through the other whose rounded size is the size the size map has for
  the address, whatever the element type.
\<close>

theorem handles_share:
  assumes "obtained_from h st0 (h', st)"
    and "valid h st0"
    and "(word_of_int kPageSize :: size_t) \<noteq> 0"
    and "to_alloc kPageSize sizeof_U m = size_at (registry h st) p"
  shows "fd h' = fd h \<and> sizes h' = sizes h \<and> free_blocks h' = free_blocks h
       \<and> size_maps st = size_maps st0 \<and> free_maps st = free_maps st0 \<and> os st = os st0
       \<and> (\<exists>st2 st3. deallocate h p n st = Some st2
              \<and> allocate kPageSize sizeof_U h' m env st2 = Some (p, st3))
       \<and> (\<exists>st2 st3. deallocate h' p n st = Some st2
              \<and> allocate kPageSize sizeof_U h m env st2 = Some (p, st3))"
proof -
  note o = obtained_from_same[OF assms(1)]
  have maps: "size_maps st = size_maps st0" "free_maps st = free_maps st0" "os st = os st0"
    by (simp_all add: o(2))
  have v: "valid h st" using assms(2) maps by (simp add: valid_def)
  from deallocate_then_allocate[OF v assms(3,4), of n env]
  show ?thesis using maps by (simp add: o(1))
qed

lemma test_copy:
  "\<exists>st0 h' st. allocate 4096 4 test_handle 10 (env_ok 65536) test_process = Some (65536, st0)
      \<and> Allocator_copy test_handle st0 = (h', st)
      \<and> valid test_handle st0
      \<and> size_at (registry test_handle st) 65536 = 4096
      \<and> size_uses st (sizes test_handle) = 2"
  by (simp add: model_defs valid_def Allocator_copy_def)

lemma test_default:
  "\<exists>st0 h' st. allocate 4096 4 test_handle 10 (env_ok 65536) (SetDefault ''test.db'' 3 init_process)
        = Some (65536, st0)
      \<and> obtained_from test_handle st0 (h', st)
      \<and> Allocator_default st0 = Some (h', st)
      \<and> valid test_handle st0
      \<and> size_at (registry test_handle st) 65536 = 4096"
  by (simp add: model_defs valid_def Allocator_copy_def Allocator_default_def SetDefault_def
      obtained_from_def)

text \<open>
  A block allocated as ten four-byte elements through the handle of the tests is
  deallocated through it and returned to a copy that asks for 100 one-byte elements;
  and, in the arena of \<^verbatim>\<open>SetDefault\<close>, deallocated through a default-constructed handle
  and returned to the handle of the tests.
\<close>

theorem handles_share_witness:
  "(word_of_int 4096 :: size_t) \<noteq> 0
   \<and> (\<exists>st0 h' st. allocate 4096 4 test_handle 10 (env_ok 65536) test_process = Some (65536, st0)
      \<and> obtained_from test_handle st0 (h', st)
      \<and> Allocator_copy test_handle st0 = (h', st)
      \<and> valid test_handle st0
      \<and> to_alloc 4096 1 100 = size_at (registry test_handle st) 65536
      \<and> sizes h' = sizes test_handle \<and> free_blocks h' = free_blocks test_handle
      \<and> size_maps st = size_maps st0
      \<and> (\<exists>st2 st3. deallocate test_handle 65536 10 st = Some st2
              \<and> allocate 4096 1 h' 100 (env_ok 131072) st2 = Some (65536, st3)))
   \<and> (\<exists>st0 h' st. allocate 4096 4 test_handle 10 (env_ok 65536) (SetDefault ''test.db'' 3 init_process)
          = Some (65536, st0)
      \<and> obtained_from test_handle st0 (h', st)
      \<and> Allocator_default st0 = Some (h', st)
      \<and> valid test_handle st0
      \<and> to_alloc 4096 1 100 = size_at (registry test_handle st) 65536
      \<and> sizes h' = sizes test_handle \<and> free_blocks h' = free_blocks test_handle
      \<and> size_maps st = size_maps st0
      \<and> (\<exists>st2 st3. deallocate h' 65536 10 st = Some st2
              \<and> allocate 4096 1 test_handle 100 (env_ok 131072) st2 = Some (65536, st3)))"
proof -
  have k: "(word_of_int 4096 :: size_t) \<noteq> 0" by simp
  have ta: "to_alloc 4096 1 100 = 4096" by (simp add: to_alloc_def)
  obtain st0 h' st where a: "allocate 4096 4 test_handle 10 (env_ok 65536) test_process = Some (65536, st0)"
    and c: "Allocator_copy test_handle st0 = (h', st)"
    and v: "valid test_handle st0"
    and s: "size_at (registry test_handle st) 65536 = 4096"
    using test_copy by blast
  have ob: "obtained_from test_handle st0 (h', st)" using c by (simp add: obtained_from_def)
  have t: "to_alloc 4096 1 100 = size_at (registry test_handle st) 65536"
    using s ta by simp
  from handles_share[OF ob v k t, of 10 "env_ok 131072"] a ob c v t
  have one: "\<exists>st0 h' st. allocate 4096 4 test_handle 10 (env_ok 65536) test_process = Some (65536, st0)
      \<and> obtained_from test_handle st0 (h', st)
      \<and> Allocator_copy test_handle st0 = (h', st)
      \<and> valid test_handle st0
      \<and> to_alloc 4096 1 100 = size_at (registry test_handle st) 65536
      \<and> sizes h' = sizes test_handle \<and> free_blocks h' = free_blocks test_handle
      \<and> size_maps st = size_maps st0
      \<and> (\<exists>st2 st3. deallocate test_handle 65536 10 st = Some st2
              \<and> allocate 4096 1 h' 100 (env_ok 131072) st2 = Some (65536, st3))"
    by blast
  obtain sd0 hd sd where a': "allocate 4096 4 test_handle 10 (env_ok 65536) (SetDefault ''test.db'' 3 init_process)
        = Some (65536, sd0)"
    and ob': "obtained_from test_handle sd0 (hd, sd)"
    and df: "Allocator_default sd0 = Some (hd, sd)"
    and v': "valid test_handle sd0"
    and s': "size_at (registry test_handle sd) 65536 = 4096"
    using test_default by blast
  have t': "to_alloc 4096 1 100 = size_at (registry test_handle sd) 65536"
    using s' ta by simp
  from handles_share[OF ob' v' k t', of 10 "env_ok 131072"] a' ob' df v' t'
  have two: "\<exists>st0 h' st. allocate 4096 4 test_handle 10 (env_ok 65536) (SetDefault ''test.db'' 3 init_process)
          = Some (65536, st0)
      \<and> obtained_from test_handle st0 (h', st)
      \<and> Allocator_default st0 = Some (h', st)
      \<and> valid test_handle st0
      \<and> to_alloc 4096 1 100 = size_at (registry test_handle st) 65536
      \<and> sizes h' = sizes test_handle \<and> free_blocks h' = free_blocks test_handle
      \<and> size_maps st = size_maps st0
      \<and> (\<exists>st2 st3. deallocate h' 65536 10 st = Some st2
              \<and> allocate 4096 1 test_handle 100 (env_ok 131072) st2 = Some (65536, st3))"
    by blast
  from k one two show ?thesis by blast
qed

section \<open>deallocate\<close>

text \<open>
  C10. \<^verbatim>\<open>deallocate\<close> does not use its count: two calls that differ in the count only
  give the same result.
\<close>

theorem deallocate_ignores_count: "deallocate a p n1 st = deallocate a p n2 st"
  by (simp add: deallocate_def)

theorem deallocate_ignores_count_witness:
  "deallocate test_handle 65536 1 test_process = deallocate test_handle 65536 1024 test_process"
  by (rule deallocate_ignores_count)

text \<open>
  C4. An address with no entry in the size map. \<^verbatim>\<open>deallocate\<close> of it returns: the size
  read is 0, the size map gets the entry 0 for the address, and the address is pushed
  on the bucket of size 0.
\<close>

theorem deallocate_unregistered:
  assumes "size_maps st (sizes a) = Some sm" and "free_maps st (free_blocks a) = Some fm"
    and "sm p = None"
  shows "deallocate a p n st =
           Some (st\<lparr>size_maps := (size_maps st)(sizes a \<mapsto> sm(p \<mapsto> 0)),
                    free_maps := (free_maps st)(free_blocks a \<mapsto> fm(0 \<mapsto> bucket fm 0 @ [p]))\<rparr>)"
  using assms by (simp add: deallocate_def size_at_def)

text \<open>The address 4096 in the new arena of the tests.\<close>

theorem deallocate_unregistered_witness:
  "size_maps test_process (sizes test_handle) = Some Map.empty
   \<and> free_maps test_process (free_blocks test_handle) = Some Map.empty
   \<and> (Map.empty :: SizeMap) 4096 = None
   \<and> map_option (\<lambda>st. (registry test_handle st 4096, free_list test_handle st 0))
        (deallocate test_handle 4096 7 test_process) = Some (Some 0, Some [4096])"
  using deallocate_unregistered[OF test_process_maps(1) test_process_maps(2), of 4096 7]
  by (simp add: test_process_maps registry_def free_list_def bucket_def)

section \<open>Failing system calls\<close>

text \<open>
  Where the second \<^verbatim>\<open>lseek\<close> or the \<^verbatim>\<open>write\<close> is refused, \<^verbatim>\<open>allocate\<close> returns null
  and the size map is as before.
\<close>

lemma grow_refused:
  assumes "grow k a sz env st = Some (p, st')" and "\<not> lseek2_ok env \<or> \<not> write_ok env"
  shows "p = NULL \<and> size_maps st' = size_maps st"
  using assms
  by (auto simp: grow_def lseek_end_def write_byte_def Let_def
      split: prod.splits if_splits option.splits)

text \<open>
  C3. The claim is that a failure of the seek, the write or the mapping makes
  \<^verbatim>\<open>allocate\<close> fail with a null result and no new entry in the size map. The result of
  \<^verbatim>\<open>mmap\<close> is not checked: in the new arena of the tests, with both seeks and the write
  done and the mapping refused, \<^verbatim>\<open>allocate(1)\<close> of a one-byte type returns
  \<^verbatim>\<open>MAP_FAILED\<close>, which is not null, and the size map, which had no entry for
  \<^verbatim>\<open>MAP_FAILED\<close>, has the entry 4096 for it.
\<close>

theorem mmap_failure_returned:
  "map_option fst (allocate 4096 1 test_handle 1
       \<lparr>lseek1_ok = True, lseek2_ok = True, write_ok = True, mmap_addr = None\<rparr> test_process)
     = Some MAP_FAILED
   \<and> MAP_FAILED \<noteq> NULL
   \<and> registry test_handle test_process MAP_FAILED = None
   \<and> map_option (\<lambda>(p, st). registry test_handle st MAP_FAILED) (allocate 4096 1 test_handle 1
       \<lparr>lseek1_ok = True, lseek2_ok = True, write_ok = True, mmap_addr = None\<rparr> test_process)
     = Some (Some 4096)"
  by (simp add: model_defs)

section \<open>The default handle\<close>

text \<open>
  C7. \<^verbatim>\<open>FreeDefault\<close>. The claim is that the call closes the file descriptor and does
  not delete the file. No code of the header closes a descriptor. What holds: where
  \<^verbatim>\<open>default_allocator\<close> points to an \<^verbatim>\<open>Allocator\<close> object, \<^verbatim>\<open>FreeDefault\<close> returns, the
  object is gone, each of its two maps has one use less and is gone with its last use,
  the global keeps its value, and the operating system's state is the same: the
  descriptor stays open and the file stays, at its length.
\<close>

theorem FreeDefault_keeps_os:
  assumes "default_allocator st = Some d" and "allocators st d = Some a"
  shows "\<exists>st'. FreeDefault st = Some st' \<and> os st' = os st
           \<and> allocators st' d = None \<and> default_allocator st' = Some d
           \<and> size_uses st' (sizes a) = size_uses st (sizes a) - 1
           \<and> free_uses st' (free_blocks a) = free_uses st (free_blocks a) - 1
           \<and> size_maps st' (sizes a)
               = (if size_uses st (sizes a) \<le> 1 then None else size_maps st (sizes a))
           \<and> free_maps st' (free_blocks a)
               = (if free_uses st (free_blocks a) \<le> 1 then None else free_maps st (free_blocks a))"
  using assms
  by (simp add: FreeDefault_def Allocator_destroy_def release_sizes_def release_free_def)

lemma SetDefault_test:
  "default_allocator (SetDefault ''test.db'' 3 init_process) = Some 2"
  "allocators (SetDefault ''test.db'' 3 init_process) 2 = Some test_handle"
  "fds (os (SetDefault ''test.db'' 3 init_process)) 3 = Some \<lparr>of_path = ''test.db'', of_pos = 0\<rparr>"
  "files (os (SetDefault ''test.db'' 3 init_process)) ''test.db'' = Some 0"
  by (simp_all add: SetDefault_def model_defs)

text \<open>
  \<^verbatim>\<open>SetDefault("test.db")\<close>, then \<^verbatim>\<open>FreeDefault()\<close>: the file is there, empty; the
  object and its size map are gone.
\<close>

theorem FreeDefault_keeps_os_witness:
  "default_allocator (SetDefault ''test.db'' 3 init_process) = Some 2
   \<and> allocators (SetDefault ''test.db'' 3 init_process) 2 = Some test_handle
   \<and> map_option (\<lambda>st. (files (os st) ''test.db'', allocators st 2, size_maps st 0))
        (FreeDefault (SetDefault ''test.db'' 3 init_process)) = Some (Some 0, None, None)"
proof -
  have u: "size_uses (SetDefault ''test.db'' 3 init_process) (sizes test_handle) = 1"
    by (simp add: SetDefault_def model_defs)
  have s: "sizes test_handle = 0" by (simp add: test_handle_def)
  from FreeDefault_keeps_os[OF SetDefault_test(1) SetDefault_test(2)] u s
  show ?thesis by (auto simp: SetDefault_test)
qed

text \<open>After the two calls descriptor 3 is still open on the file.\<close>

theorem FreeDefault_counterexample:
  "map_option (\<lambda>st. fds (os st) 3) (FreeDefault (SetDefault ''test.db'' 3 init_process))
     = Some (Some \<lparr>of_path = ''test.db'', of_pos = 0\<rparr>)"
  by (simp add: FreeDefault_def Allocator_destroy_def release_sizes_def release_free_def
      SetDefault_def model_defs)

section \<open>Comparison of handles\<close>

text \<open>
  C5. \<^verbatim>\<open>operator==\<close> (lines 125 to 128) returns \<^verbatim>\<open>a.fd() == b.fd()\<close>, and
  \<^verbatim>\<open>operator!=\<close> its negation. \<^verbatim>\<open>class Allocator\<close> declares no member function
  \<^verbatim>\<open>fd\<close>: its members are the field \<^verbatim>\<open>fd_\<close>, which is private, and the functions
  modelled above. The two operators are templates that no code of the repository
  instantiates; an instantiation does not compile. There is no function to embed, and
  the comparison has no definition here.
\<close>

end
